theory Spec2Isabelle
  imports Complex_Main
begin

section \<open>Values exchanged with the vendor API\<close>

text \<open>
  The scraper reads the JSON documents returned by the vendor's listing endpoint. The
  values it touches are JSON null (Python \<open>None\<close>), integers and strings; a JSON object
  is a Python dict, modelled as a partial map from keys to values.  On these values the
  Python comparison \<open>==\<close> is plain equality.
\<close>

datatype json = JNull | JInt int | JStr string

type_synonym component = "string \<rightharpoonup> json"

text \<open>Exceptions raised by the modelled code are values of the following type.\<close>

datatype error =
    KeyError string
  | IndexError
  | ValueError
  | TypeError
  | AttributeError
  | ZeroDivisionError
  | RuntimeError
  | RequestException

text \<open>\<open>d.get(k)\<close> returns \<open>None\<close> for an absent key; \<open>d[k]\<close> raises \<open>KeyError\<close>.\<close>

definition dict_get :: "component \<Rightarrow> string \<Rightarrow> json" where
  "dict_get d k = (case d k of None \<Rightarrow> JNull | Some v \<Rightarrow> v)"

definition dict_item :: "component \<Rightarrow> string \<Rightarrow> error + json" where
  "dict_item d k = (case d k of None \<Rightarrow> Inl (KeyError k) | Some v \<Rightarrow> Inr v)"

section \<open>Price extraction\<close>

text \<open>
  \<open>s.split(sep)\<close> for a one-character separator: the pieces between the occurrences of
  the separator, so the result is never empty and \<open>''''.split(sep) = ['''']\<close>.
\<close>

fun str_split :: "char \<Rightarrow> string \<Rightarrow> string list" where
  "str_split sep [] = [[]]"
| "str_split sep (c # cs) =
     (if c = sep then [] # str_split sep cs
      else (case str_split sep cs of
              [] \<Rightarrow> [[c]]
            | p # ps \<Rightarrow> (c # p) # ps))"

text \<open>\<open>xs[i]\<close> on a list, for a non-negative index: \<open>IndexError\<close> out of range.\<close>

definition list_item :: "'a list \<Rightarrow> nat \<Rightarrow> error + 'a" where
  "list_item xs i = (if i < length xs then Inr (xs ! i) else Inl IndexError)"

text \<open>Python truthiness of a value: \<open>None\<close>, \<open>0\<close> and the empty string are falsy.\<close>

fun truthy :: "json \<Rightarrow> bool" where
  "truthy JNull = False"
| "truthy (JInt n) = (n \<noteq> 0)"
| "truthy (JStr s) = (s \<noteq> [])"

text \<open>
  The body of the \<open>try\<close> block of \<open>get_part_price\<close>.  The builtin \<open>float\<close> is a parameter
  \<open>pfloat\<close> of the model: it maps a string to the float it denotes, or to nothing when
  Python raises \<open>ValueError\<close>.  A truthy value that is not a string has no \<open>split\<close>
  attribute.
\<close>

definition get_part_price_try :: "(string \<Rightarrow> 'f option) \<Rightarrow> json \<Rightarrow> error + 'f option" where
  "get_part_price_try pfloat price =
     (if \<not> truthy price then Inr None
      else (case price of
              JStr s \<Rightarrow>
                (case list_item (str_split CHR '','' s) 0 of
                   Inl e \<Rightarrow> Inl e
                 | Inr tier \<Rightarrow>
                     (case list_item (str_split CHR '':'' tier) 1 of
                        Inl e \<Rightarrow> Inl e
                      | Inr p \<Rightarrow>
                          (case pfloat p of
                             None \<Rightarrow> Inl ValueError
                           | Some x \<Rightarrow> Inr (Some x))))
            | _ \<Rightarrow> Inl AttributeError))"

text \<open>\<open>except Exception\<close>: every exception of the body is caught and \<open>None\<close> is returned.\<close>

definition get_part_price :: "(string \<Rightarrow> 'f option) \<Rightarrow> json \<Rightarrow> 'f option" where
  "get_part_price pfloat price =
     (case get_part_price_try pfloat price of Inl e \<Rightarrow> None | Inr r \<Rightarrow> r)"

text \<open>
  For closed examples the float parser is instantiated with a parser of plain decimal
  literals (digits, optionally a point and more digits), read as the exact rational the
  literal denotes.  It is not the builtin: it gives nothing on every other string, also
  on those \<open>float\<close> accepts (a sign, an exponent, blanks around the literal, \<open>inf\<close>,
  \<open>nan\<close>), and the rounding of the rational to a binary double is not represented.  The
  examples apply it to plain decimal literals only, and no theorem about the scraper
  depends on it: they hold for every parser.
\<close>

definition digit_val :: "char \<Rightarrow> nat option" where
  "digit_val c =
     (let n = (of_char c :: nat) in if 48 \<le> n \<and> n \<le> 57 then Some (n - 48) else None)"

fun digits_val :: "nat \<Rightarrow> string \<Rightarrow> nat option" where
  "digits_val acc [] = Some acc"
| "digits_val acc (c # cs) =
     (case digit_val c of None \<Rightarrow> None | Some d \<Rightarrow> digits_val (10 * acc + d) cs)"

definition float_decimal :: "string \<Rightarrow> rat option" where
  "float_decimal s =
     (case str_split CHR ''.'' s of
        [ip] \<Rightarrow>
          (if ip = [] then None
           else map_option (\<lambda>n. of_int (int n)) (digits_val 0 ip))
      | [ip, fp] \<Rightarrow>
          (if ip = [] \<and> fp = [] then None
           else (case digits_val 0 (ip @ fp) of
                   None \<Rightarrow> None
                 | Some n \<Rightarrow> Some (of_int (int n) / of_int (10 ^ length fp))))
      | _ \<Rightarrow> None)"

text \<open>
  Two notions used to state what \<open>get_part_price\<close> computes: the first comma-separated
  tier of a price string, and the second colon-separated field of a tier.
\<close>

definition first_tier :: "string \<Rightarrow> string" where
  "first_tier s = takeWhile (\<lambda>c. c \<noteq> CHR '','') s"

definition second_field :: "string \<Rightarrow> string" where
  "second_field t =
     takeWhile (\<lambda>c. c \<noteq> CHR '':'') (tl (dropWhile (\<lambda>c. c \<noteq> CHR '':'') t))"

text \<open>
  The format of a price string in the words of the specification, comma-separated
  \<open>qtyRange:price\<close> tuples: every comma-separated tier has exactly two fields.
\<close>

definition well_formed_price :: "string \<Rightarrow> bool" where
  "well_formed_price s =
     list_all (\<lambda>fields. length fields = 2)
       (map (str_split CHR '':'') (str_split CHR '','' s))"

section \<open>The category index\<close>

record category =
  cat_id :: "int option"
  name :: json
  subcategory_name :: json

definition category_exists :: "category list \<Rightarrow> json \<Rightarrow> bool" where
  "category_exists categories sub =
     list_ex (\<lambda>b. b) (map (\<lambda>category. subcategory_name category = sub) categories)"

definition get_category :: "category list \<Rightarrow> json \<Rightarrow> category option" where
  "get_category categories sub =
     find (\<lambda>category. subcategory_name category = sub) categories"

section \<open>Parts and the collaborators of the scraper\<close>

text \<open>
  A \<open>Part\<close> as the scraper constructs it.  The price is a float or \<open>None\<close>; a time is a
  reading of \<open>datetime.now()\<close> in microseconds.
\<close>

record 'f part =
  lcsc :: json
  category_id :: "int option"
  mfr :: json
  package :: json
  joints :: int
  manufacturer :: json
  basic :: bool
  description :: json
  datasheet :: json
  stock :: int
  price :: "'f option"
  last_update :: int

text \<open>
  A page of the listing endpoint, \<open>{code, data: {componentInfos, lastKey}}\<close>.  The scraper
  reads \<open>response.get('data', {})\<close>, so a document without the key \<open>data\<close> is read as one
  with an empty object; a \<open>data\<close> that is null has no \<open>get\<close>.  Inside the object an absent
  \<open>componentInfos\<close> is the empty list of records and an absent \<open>lastKey\<close> is \<open>None\<close>.
\<close>

datatype page_data = NoData | NullData | PageData "component list" json

record response =
  code :: json
  data :: page_data

definition componentInfos :: "response \<Rightarrow> component list" where
  "componentInfos resp = (case data resp of PageData comps k \<Rightarrow> comps | _ \<Rightarrow> [])"

definition lastKey :: "response \<Rightarrow> json" where
  "lastKey resp = (case data resp of PageData comps k \<Rightarrow> k | _ \<Rightarrow> JNull)"

text \<open>\<open>response.get('data', {}).get('componentInfos', [])\<close>.\<close>

definition get_componentInfos :: "response \<Rightarrow> error + component list" where
  "get_componentInfos resp =
     (case data resp of NullData \<Rightarrow> Inl AttributeError | _ \<Rightarrow> Inr (componentInfos resp))"

text \<open>The reply of the token endpoint: the HTTP status and the JSON body.\<close>

record token_reply =
  status_code :: int
  reply_json :: component

text \<open>
  What the scraper calls and this repository's sources do not define is a parameter of
  the model:
  \<^item> \<open>pfloat\<close> and \<open>pint\<close>: the builtins \<open>float\<close> and \<open>int\<close> on strings (nothing when they
    raise \<open>ValueError\<close>);
  \<^item> \<open>category_eq\<close>: the equality of \<open>Category\<close> objects used by \<open>not in\<close>;
  \<^item> \<open>create_or_update_category\<close>: given the session and the new category, the category
    it returns, the id it leaves on the object passed in, and the session afterwards;
  \<^item> \<open>create_or_update_part\<close>: the session after the upsert of a part;
  \<^item> \<open>now\<close>: the n-th reading of \<open>datetime.now()\<close>;
  \<^item> \<open>gen_token\<close>: the reply of the token endpoint to a handshake made after n clock
    readings;
  \<^item> \<open>post_component_infos\<close>: what \<open>future.result().json()\<close> gives for the n-th request
    and its body, the page answered or the exception of the request or of the decoding;
  \<^item> \<open>as_completed\<close>: the order in which the n-th call of \<open>as_completed\<close> yields the
    futures submitted so far (each stands for what it resolved to).
\<close>

record ('f, 'db) env =
  pfloat :: "string \<Rightarrow> 'f option"
  pint :: "string \<Rightarrow> int option"
  category_eq :: "category \<Rightarrow> category \<Rightarrow> bool"
  create_or_update_category :: "'db \<Rightarrow> category \<Rightarrow> category \<times> int option \<times> 'db"
  create_or_update_part :: "'db \<Rightarrow> 'f part \<Rightarrow> 'db"
  now :: "nat \<Rightarrow> int"
  gen_token :: "nat \<Rightarrow> token_reply"
  post_component_infos :: "nat \<Rightarrow> json option \<Rightarrow> error + response"
  as_completed :: "nat \<Rightarrow> (error + response) list \<Rightarrow> (error + response) list"

text \<open>
  The scraper object together with the database session handed to its methods and the
  number of clock readings taken so far.
\<close>

record 'db scraper =
  categories :: "category list"
  token :: json
  token_expires :: "int option"
  key :: "string option"
  secret :: "string option"
  session :: 'db
  ticks :: nat

text \<open>Sequencing of computations that may raise.\<close>

fun and_then :: "error + 'a \<Rightarrow> ('a \<Rightarrow> error + 'b) \<Rightarrow> error + 'b" where
  "and_then (Inl e) f = Inl e"
| "and_then (Inr x) f = f x"

text \<open>A \<open>for\<close> loop whose body may raise: the first exception ends it.\<close>

fun for_each :: "('a \<Rightarrow> 's \<Rightarrow> error + 's) \<Rightarrow> 'a list \<Rightarrow> 's \<Rightarrow> error + 's" where
  "for_each body [] s = Inr s"
| "for_each body (x # xs) s = and_then (body x s) (for_each body xs)"

text \<open>The builtin \<open>int\<close> on a JSON value.\<close>

definition py_int :: "(string \<Rightarrow> int option) \<Rightarrow> json \<Rightarrow> error + int" where
  "py_int parse v =
     (case v of
        JNull \<Rightarrow> Inl TypeError
      | JInt n \<Rightarrow> Inr n
      | JStr s \<Rightarrow> (case parse s of None \<Rightarrow> Inl ValueError | Some n \<Rightarrow> Inr n))"

section \<open>Token handling\<close>

definition timedelta_seconds :: "int \<Rightarrow> int" where
  "timedelta_seconds n = n * 1000000"

definition falsy_str :: "string option \<Rightarrow> bool" where
  "falsy_str v = (case v of None \<Rightarrow> True | Some s \<Rightarrow> s = [])"

definition obtain_token :: "('f, 'db) env \<Rightarrow> 'db scraper \<Rightarrow> error + 'db scraper" where
  "obtain_token e s =
     (if falsy_str (key s) \<or> falsy_str (secret s) then Inl RuntimeError
      else
        (let resp = gen_token e (ticks s) in
         if status_code resp \<noteq> 200 then Inl RuntimeError
         else
           and_then (dict_item (reply_json resp) ''code'') (\<lambda>c.
             if c \<noteq> JInt 200 then Inl RuntimeError
             else
               and_then (dict_item (reply_json resp) ''data'') (\<lambda>tok.
                 Inr (s\<lparr>token := tok,
                        token_expires := Some (now e (ticks s) + timedelta_seconds 1800),
                        ticks := Suc (ticks s)\<rparr>)))))"

text \<open>The check at the head of every iteration of the loop of \<open>get_parts\<close>.\<close>

definition check_token :: "('f, 'db) env \<Rightarrow> 'db scraper \<Rightarrow> error + 'db scraper" where
  "check_token e s =
     (case token_expires s of
        None \<Rightarrow> Inl TypeError
      | Some expires \<Rightarrow>
          (if expires < now e (ticks s) then obtain_token e (s\<lparr>ticks := Suc (ticks s)\<rparr>)
           else Inr (s\<lparr>ticks := Suc (ticks s)\<rparr>)))"

section \<open>Processing one page\<close>

text \<open>The body of the first loop of \<open>extract_and_process_components\<close>.\<close>

definition process_category ::
  "('f, 'db) env \<Rightarrow> component \<Rightarrow> 'db scraper \<times> category list \<Rightarrow> 'db scraper \<times> category list" where
  "process_category e component st =
     (case st of (s, new_categories) \<Rightarrow>
        (let category_name = dict_get component ''firstCategory'';
             sub = dict_get component ''secondCategory''
         in if \<not> category_exists (categories s) sub then
              (let new_category =
                     \<lparr>cat_id = None, name = category_name, subcategory_name = sub\<rparr>
               in case create_or_update_category e (session s) new_category of
                    (category, assigned, db) \<Rightarrow>
                      (if \<not> list_ex (category_eq e category) (categories s) then
                         (s\<lparr>categories := categories s @ [new_category\<lparr>cat_id := assigned\<rparr>],
                            session := db\<rparr>,
                          new_categories @ [new_category\<lparr>cat_id := assigned\<rparr>])
                       else (s\<lparr>session := db\<rparr>, new_categories)))
            else (s, new_categories)))"

text \<open>The \<open>Part\<close> built from a record once its category is resolved.\<close>

definition make_part ::
  "('f, 'db) env \<Rightarrow> int \<Rightarrow> category \<Rightarrow> component \<Rightarrow> error + 'f part" where
  "make_part e time category part_data =
     and_then (dict_item part_data ''price'') (\<lambda>pr.
     and_then (dict_item part_data ''lcscPart'') (\<lambda>v_lcsc.
     and_then (dict_item part_data ''mfrPart'') (\<lambda>v_mfr.
     and_then (dict_item part_data ''package'') (\<lambda>v_package.
     and_then (dict_item part_data ''solderJoint'') (\<lambda>v_joint.
     and_then (py_int (pint e) v_joint) (\<lambda>n_joints.
     and_then (dict_item part_data ''manufacturer'') (\<lambda>v_manufacturer.
     and_then (dict_item part_data ''libraryType'') (\<lambda>v_library.
     and_then (dict_item part_data ''description'') (\<lambda>v_description.
     and_then (dict_item part_data ''datasheet'') (\<lambda>v_datasheet.
     and_then (dict_item part_data ''stock'') (\<lambda>v_stock.
     and_then (py_int (pint e) v_stock) (\<lambda>n_stock.
       Inr \<lparr>lcsc = v_lcsc,
            category_id = cat_id category,
            mfr = v_mfr,
            package = v_package,
            joints = n_joints,
            manufacturer = v_manufacturer,
            basic = (v_library = JStr ''base''),
            description = v_description,
            datasheet = v_datasheet,
            stock = n_stock,
            price = get_part_price (pfloat e) pr,
            last_update = time\<rparr>))))))))))))"

text \<open>The body of the second loop of \<open>extract_and_process_components\<close>.\<close>

definition process_part ::
  "('f, 'db) env \<Rightarrow> component \<Rightarrow> 'db scraper \<times> 'f part list \<Rightarrow> error + 'db scraper \<times> 'f part list" where
  "process_part e part_data st =
     (case st of (s, new_parts) \<Rightarrow>
        and_then (dict_item part_data ''stock'') (\<lambda>v_stock.
          if v_stock = JInt 0 then Inr (s, new_parts)
          else
            and_then (dict_item part_data ''secondCategory'') (\<lambda>part_subcategory_name.
              case get_category (categories s) part_subcategory_name of
                None \<Rightarrow> Inr (s, new_parts)
              | Some category \<Rightarrow>
                  and_then (make_part e (now e (ticks s)) category part_data) (\<lambda>new_part.
                    Inr (s\<lparr>session := create_or_update_part e (session s) new_part,
                           ticks := Suc (ticks s)\<rparr>,
                         new_parts @ [new_part])))))"

definition extract_and_process_components ::
  "('f, 'db) env \<Rightarrow> 'db scraper \<Rightarrow> response
     \<Rightarrow> error + 'db scraper \<times> 'f part list \<times> category list" where
  "extract_and_process_components e s resp =
     and_then (get_componentInfos resp) (\<lambda>comps.
       case fold (process_category e) comps (s, []) of
         (s1, new_categories) \<Rightarrow>
           and_then (for_each (process_part e) comps (s1, []))
             (\<lambda>(s2, new_parts). Inr (s2, new_parts, new_categories)))"

section \<open>The pagination loop\<close>

text \<open>The local variables of \<open>get_parts\<close>, with the scraper object it works on.\<close>

record ('f, 'db) fetch =
  scr :: "'db scraper"
  parts_fetched :: bool
  last_key :: json
  all_parts :: "'f part list"
  all_categories :: "category list"
  futures :: "(error + response) list"

text \<open>
  The body of the loop over the completed futures.  \<open>future.result().json()\<close> raises what
  the request or the decoding raised.  The test of the page is
  \<open>response.get("code") == 200 and response.get('data', {}).get('componentInfos', [])\<close>:
  the records are looked at only when the code is 200.  In the branch that processes the
  page the data is not null, so its \<open>lastKey\<close> is read without an exception.
\<close>

definition apply_response ::
  "('f, 'db) env \<Rightarrow> error + response \<Rightarrow> ('f, 'db) fetch \<Rightarrow> error + ('f, 'db) fetch" where
  "apply_response e result g =
     (case result of
        Inl err \<Rightarrow> Inl err
      | Inr resp \<Rightarrow>
          (if code resp = JInt 200 then
             and_then (get_componentInfos resp) (\<lambda>comps.
               if comps \<noteq> [] then
                 and_then (extract_and_process_components e (scr g) resp)
                   (\<lambda>(s, parts, cats).
                      Inr (g\<lparr>scr := s,
                             all_parts := all_parts g @ parts,
                             all_categories := all_categories g @ cats,
                             last_key := lastKey resp,
                             parts_fetched := (parts \<noteq> [])\<rparr>))
               else Inr (g\<lparr>parts_fetched := False\<rparr>))
           else Inr (g\<lparr>parts_fetched := False\<rparr>)))"

text \<open>The request body: \<open>{"lastKey": last_key} if last_key else None\<close>.\<close>

definition request_data :: "json \<Rightarrow> json option" where
  "request_data k = (if truthy k then Some k else None)"

text \<open>The state in which the futures are waited for: the request has been submitted.\<close>

definition submit :: "('f, 'db) env \<Rightarrow> ('f, 'db) fetch \<Rightarrow> 'db scraper \<Rightarrow> ('f, 'db) fetch" where
  "submit e g s =
     g\<lparr>scr := s,
       futures := futures g @
         [post_component_infos e (length (futures g)) (request_data (last_key g))]\<rparr>"

text \<open>One iteration of the \<open>while\<close> loop.\<close>

definition get_parts_iteration ::
  "('f, 'db) env \<Rightarrow> ('f, 'db) fetch \<Rightarrow> error + ('f, 'db) fetch" where
  "get_parts_iteration e g =
     and_then (check_token e (scr g)) (\<lambda>s.
       for_each (apply_response e)
         (as_completed e (length (futures g)) (futures (submit e g s)))
         (submit e g s))"

text \<open>
  The \<open>while\<close> loop, with a bound on the number of iterations: \<open>None\<close> when the bound is
  reached with the loop still running, otherwise the exception raised or the final
  state.
\<close>

fun get_parts_loop ::
  "nat \<Rightarrow> ('f, 'db) env \<Rightarrow> ('f, 'db) fetch \<Rightarrow> (error + ('f, 'db) fetch) option" where
  "get_parts_loop 0 e g = None"
| "get_parts_loop (Suc n) e g =
     (if parts_fetched g then
        (case get_parts_iteration e g of
           Inl err \<Rightarrow> Some (Inl err)
         | Inr g' \<Rightarrow> (if \<not> parts_fetched g' then Some (Inr g') else get_parts_loop n e g'))
      else Some (Inr g))"

definition get_parts ::
  "nat \<Rightarrow> ('f, 'db) env \<Rightarrow> 'db scraper \<Rightarrow> (error + ('f, 'db) fetch) option" where
  "get_parts n e s =
     get_parts_loop n e
       \<lparr>scr = s, parts_fetched = True, last_key = JNull, all_parts = [],
        all_categories = [], futures = []\<rparr>"

section \<open>Partitioning the parts for normalization\<close>

text \<open>
  \<open>math.ceil(a / b)\<close> on non-negative integers: the division raises for \<open>b = 0\<close>.  The
  quotient is a float in Python; for counts below \<open>2 ^ 53\<close> its ceiling is the integer
  ceiling of the exact quotient.
\<close>

definition ceil_div :: "nat \<Rightarrow> nat \<Rightarrow> error + nat" where
  "ceil_div a b =
     (if b = 0 then Inl ZeroDivisionError
      else Inr (if a mod b = 0 then a div b else a div b + 1))"

text \<open>\<open>session.query(Part).offset(offset).limit(limit).all()\<close> on the list of stored parts.\<close>

definition query_parts :: "'a list \<Rightarrow> nat \<Rightarrow> nat \<Rightarrow> 'a list" where
  "query_parts parts offset limit = take limit (drop offset parts)"

text \<open>
  The partitioning of step 7 of the main script: the number of chunks, the size of a
  chunk, and the chunks submitted to the executor, in order.
\<close>

definition partition_parts :: "'a list \<Rightarrow> error + nat \<times> nat \<times> 'a list list" where
  "partition_parts parts =
     (let total_parts = length parts in
      and_then (ceil_div total_parts 100) (\<lambda>chunks.
      and_then (ceil_div total_parts chunks) (\<lambda>parts_per_chunk.
        Inr (chunks, parts_per_chunk,
             map (\<lambda>i. query_parts parts (i * parts_per_chunk) parts_per_chunk) [0..<chunks]))))"

section \<open>A concrete repository and vendor for closed examples\<close>

text \<open>
  For closed examples the parser of integers is instantiated with a parser of plain
  decimal digits.  It is not the builtin: it gives nothing on every other string, also
  on those \<open>int\<close> accepts (a sign, blanks around the digits, underscores between them).
  The examples apply it to plain digits only, and no theorem about the scraper depends
  on it.
\<close>

definition int_decimal :: "string \<Rightarrow> int option" where
  "int_decimal s = (if s = [] then None else map_option int (digits_val 0 s))"

record repo =
  repo_categories :: "category list"
  repo_parts :: "rat part list"

text \<open>
  Modelled from the spec: \<open>create_or_update_category\<close> of the module \<open>models\<close>, which is
  not among the sources.  The repository's \<open>upsert_category\<close> is keyed by
  \<open>subcategory_name\<close>: a stored category of that name is returned as it is, otherwise the
  new category is stored under the next free id and returned.
\<close>

definition upsert_category :: "repo \<Rightarrow> category \<Rightarrow> category \<times> int option \<times> repo" where
  "upsert_category db c =
     (case find (\<lambda>d. subcategory_name d = subcategory_name c) (repo_categories db) of
        Some d \<Rightarrow> (d, None, db)
      | None \<Rightarrow>
          (let i = int (length (repo_categories db)) + 1 in
           (c\<lparr>cat_id := Some i\<rparr>, Some i,
            db\<lparr>repo_categories := repo_categories db @ [c\<lparr>cat_id := Some i\<rparr>]\<rparr>)))"

text \<open>
  Modelled from the spec: \<open>create_or_update_part\<close> of the module \<open>models\<close>, which is not
  among the sources.  The repository's \<open>upsert_part\<close> is keyed by the LCSC code: the
  part replaces a stored part of the same code.
\<close>

definition upsert_part :: "repo \<Rightarrow> rat part \<Rightarrow> repo" where
  "upsert_part db p =
     db\<lparr>repo_parts := filter (\<lambda>q. lcsc q \<noteq> lcsc p) (repo_parts db) @ [p]\<rparr>"

text \<open>Component records as the listing endpoint sends them, and variations.\<close>

definition resistor :: component where
  "resistor = map_of
     [(''lcscPart'', JStr ''C25804''), (''mfrPart'', JStr ''0603WAF1002T5E''),
      (''package'', JStr ''0603''), (''solderJoint'', JStr ''2''),
      (''manufacturer'', JStr ''UNI-ROYAL''), (''libraryType'', JStr ''base''),
      (''description'', JStr ''10k 1%''), (''datasheet'', JStr ''https://d/C25804.pdf''),
      (''stock'', JInt 5000), (''price'', JStr ''20-180:0.004285714,200-780:0.003485714''),
      (''firstCategory'', JStr ''Resistors''), (''secondCategory'', JStr ''Chip Resistor'')]"

definition capacitor :: component where
  "capacitor = map_of
     [(''lcscPart'', JStr ''C14663''), (''mfrPart'', JStr ''CC0603KRX7R9BB104''),
      (''package'', JStr ''0603''), (''solderJoint'', JInt 2),
      (''manufacturer'', JStr ''YAGEO''), (''libraryType'', JStr ''expand''),
      (''description'', JStr ''100nF 50V X7R''), (''datasheet'', JStr ''https://d/C14663.pdf''),
      (''stock'', JInt 0), (''price'', JStr []),
      (''firstCategory'', JStr ''Capacitors''), (''secondCategory'', JStr ''MLCC'')]"

definition inductor :: component where
  "inductor = map_of
     [(''lcscPart'', JStr ''C1035''), (''mfrPart'', JStr ''SDFL2012S100KTF''),
      (''package'', JStr ''0805''), (''solderJoint'', JInt 2),
      (''manufacturer'', JStr ''Sunlord''), (''libraryType'', JStr ''Basic''),
      (''description'', JStr ''10uH''), (''datasheet'', JNull),
      (''stock'', JInt 12), (''price'', JStr ''1-9:0.25''),
      (''firstCategory'', JStr ''Inductors''), (''secondCategory'', JStr ''Power Inductors'')]"

text \<open>The resistor record without its \<open>libraryType\<close> key.\<close>

definition resistor_untyped :: component where
  "resistor_untyped = resistor(''libraryType'' := None)"

definition page :: "component list \<Rightarrow> json \<Rightarrow> response" where
  "page cs k = \<lparr>code = JInt 200, data = PageData cs k\<rparr>"

text \<open>A reply with a code that is not 200, and a reply whose \<open>data\<close> is null.\<close>

definition failed_page :: response where
  "failed_page = \<lparr>code = JInt 500, data = NoData\<rparr>"

definition null_page :: response where
  "null_page = \<lparr>code = JInt 200, data = NullData\<rparr>"

text \<open>
  A vendor whose catalogue has two pages, the second holding out-of-stock parts only; a
  clock that advances by one second per reading; futures yielded in the order of their
  submission.
\<close>

definition vendor :: "nat \<Rightarrow> json option \<Rightarrow> error + response" where
  "vendor n request =
     (if request = None then Inr (page [resistor, capacitor] (JStr ''k1''))
      else if request = Some (JStr ''k1'') then Inr (page [capacitor] (JStr ''k2''))
      else Inr (page [] JNull))"

definition example_env :: "(rat, repo) env" where
  "example_env =
     \<lparr>pfloat = float_decimal,
      pint = int_decimal,
      category_eq = (=),
      create_or_update_category = upsert_category,
      create_or_update_part = upsert_part,
      now = (\<lambda>n. 1000000 * int n),
      gen_token = (\<lambda>n. \<lparr>status_code = 200,
                         reply_json = map_of [(''code'', JInt 200), (''data'', JStr ''t'')]\<rparr>),
      post_component_infos = vendor,
      as_completed = (\<lambda>n fs. fs)\<rparr>"

definition example_scraper :: "repo scraper" where
  "example_scraper =
     \<lparr>categories = [],
      token = JStr ''t'',
      token_expires = Some 1800000000,
      key = Some ''k'',
      secret = Some ''s'',
      session = \<lparr>repo_categories = [], repo_parts = []\<rparr>,
      ticks = 0\<rparr>"

text \<open>The part built from the resistor record at time 0, with the category it resolves to.\<close>

definition chip_resistor :: category where
  "chip_resistor =
     \<lparr>cat_id = Some 1, name = JStr ''Resistors'', subcategory_name = JStr ''Chip Resistor''\<rparr>"

definition resistor_part :: "rat part" where
  "resistor_part =
     \<lparr>lcsc = JStr ''C25804'', category_id = Some 1, mfr = JStr ''0603WAF1002T5E'',
      package = JStr ''0603'', joints = 2, manufacturer = JStr ''UNI-ROYAL'', basic = True,
      description = JStr ''10k 1%'', datasheet = JStr ''https://d/C25804.pdf'', stock = 5000,
      price = Some (4285714 / 1000000000), last_update = 0\<rparr>"

text \<open>The local state of \<open>get_parts\<close> when its loop is entered.\<close>

definition example_fetch :: "(rat, repo) fetch" where
  "example_fetch =
     \<lparr>scr = example_scraper, parts_fetched = True, last_key = JNull, all_parts = [],
      all_categories = [], futures = []\<rparr>"

text \<open>
  A vendor that answers the first request with a page and every later request with code
  500, and an executor in which every request has completed by the time \<open>as_completed\<close>
  is called, the futures being yielded latest first.
\<close>

definition failing_vendor :: "nat \<Rightarrow> json option \<Rightarrow> error + response" where
  "failing_vendor n request =
     (if request = None then Inr (page [resistor, capacitor] (JStr ''k1''))
      else Inr failed_page)"

definition latest_first_env :: "(rat, repo) env" where
  "latest_first_env =
     example_env\<lparr>post_component_infos := failing_vendor, as_completed := (\<lambda>n fs. rev fs)\<rparr>"




section \<open>Properties\<close>

lemma str_split_nonempty: "str_split sep s \<noteq> []"
  by (induction s) (auto split: list.splits)

subsection \<open>Splitting strings\<close>

lemma str_split_unfold:
  "str_split sep s =
     takeWhile (\<lambda>c. c \<noteq> sep) s #
       (if sep \<in> set s then str_split sep (tl (dropWhile (\<lambda>c. c \<noteq> sep) s)) else [])"
proof (induction s)
  case Nil
  show ?case by simp
next
  case (Cons c cs)
  show ?case
  proof (cases "c = sep")
    case True
    then show ?thesis by simp
  next
    case False
    then show ?thesis
      by (subst str_split.simps, subst Cons.IH) simp
  qed
qed

lemma list_item_0_split:
  "list_item (str_split sep s) 0 = Inr (takeWhile (\<lambda>c. c \<noteq> sep) s)"
  by (subst str_split_unfold) (simp add: list_item_def)

lemma list_item_1_split:
  "list_item (str_split sep s) (Suc 0) =
     (if sep \<in> set s
      then Inr (takeWhile (\<lambda>c. c \<noteq> sep) (tl (dropWhile (\<lambda>c. c \<noteq> sep) s)))
      else Inl IndexError)"
proof (cases "sep \<in> set s")
  case True
  have "str_split sep s =
          takeWhile (\<lambda>c. c \<noteq> sep) s # str_split sep (tl (dropWhile (\<lambda>c. c \<noteq> sep) s))"
    using True by (subst str_split_unfold) simp
  moreover have "list_item (x # str_split sep t) (Suc 0) = list_item (str_split sep t) 0"
    for x t
    by (simp add: list_item_def str_split_nonempty)
  ultimately show ?thesis using True by (simp add: list_item_0_split)
next
  case False
  then show ?thesis by (subst str_split_unfold) (simp add: list_item_def)
qed

subsection \<open>Price extraction\<close>

lemma get_part_price_str:
  "get_part_price pf (JStr s) =
     (if CHR '':'' \<in> set (first_tier s) then pf (second_field (first_tier s)) else None)"
proof (cases "s = []")
  case True
  then show ?thesis by (simp add: get_part_price_def get_part_price_try_def first_tier_def)
next
  case False
  then show ?thesis
    by (simp add: get_part_price_def get_part_price_try_def first_tier_def second_field_def
        list_item_0_split list_item_1_split split: option.splits)
qed

lemma get_part_price_not_str:
  "get_part_price pf JNull = None" "get_part_price pf (JInt n) = None"
  by (simp_all add: get_part_price_def get_part_price_try_def)

text \<open>
  C2, as the code has it.  \<open>get_part_price\<close> never raises: its result is a float or
  \<open>None\<close>.  On a string it looks at the first comma-separated tier only (the vendor
  lists the lowest quantity range first, the code does not compare ranges): when that
  tier contains a colon, the result is what \<open>float\<close> makes of the text between its first
  and its second colon, which is \<open>None\<close> when \<open>float\<close> rejects it; when the tier has no
  colon, and so for the empty string, the result is \<open>None\<close>.  Nothing after the first
  comma and nothing before the first colon is inspected.  A value that is not a string
  gives \<open>None\<close>.  The string \<open>20-180:0.004285714,200-780:0.003485714\<close> gives the float
  of \<open>0.004285714\<close>.
\<close>

theorem get_part_price_first_tier:
  "get_part_price pf (JStr s) =
     (if CHR '':'' \<in> set (first_tier s) then pf (second_field (first_tier s)) else None)
   \<and> get_part_price pf (JStr []) = None
   \<and> get_part_price pf JNull = None
   \<and> get_part_price pf (JInt n) = None
   \<and> get_part_price pf (JStr ''20-180:0.004285714,200-780:0.003485714'') = pf ''0.004285714''"
proof -
  have "get_part_price pf (JStr []) = None"
    by (simp add: get_part_price_str first_tier_def)
  moreover have
    "get_part_price pf (JStr ''20-180:0.004285714,200-780:0.003485714'') = pf ''0.004285714''"
    by (simp add: get_part_price_str first_tier_def second_field_def)
  ultimately show ?thesis
    using get_part_price_str [of pf s] get_part_price_not_str [of pf] by simp
qed

text \<open>
  C2 as the specification states it fails: a price string whose second tier is not a
  \<open>qtyRange:price\<close> tuple is malformed, and \<open>get_part_price\<close> still returns the price of
  its first tier; and the tier it reads is the first one, also when a later tier has the
  lower quantity range.
\<close>

theorem get_part_price_malformed_counterexample:
  "\<not> well_formed_price ''20-180:0.5,junk''
   \<and> get_part_price float_decimal (JStr ''20-180:0.5,junk'') = Some (1 / 2)
   \<and> get_part_price float_decimal (JStr ''200-780:0.003485714,20-180:0.004285714'')
       = Some (3485714 / 1000000000)"
  by (simp add: well_formed_price_def get_part_price_str first_tier_def second_field_def
      float_decimal_def digit_val_def)

subsection \<open>The category index\<close>

lemma find_subcategory:
  "find (\<lambda>c. subcategory_name c = sub) cs = Some c \<Longrightarrow> subcategory_name c = sub \<and> c \<in> set cs"
  by (induction cs) (auto split: if_splits)

lemma get_category_Some:
  "get_category cs sub = Some c \<Longrightarrow> subcategory_name c = sub \<and> c \<in> set cs"
  unfolding get_category_def by (rule find_subcategory)

lemma category_exists_iff: "category_exists cs sub \<longleftrightarrow> sub \<in> subcategory_name ` set cs"
  unfolding category_exists_def by (induction cs) auto

lemma get_category_None_iff: "get_category cs sub = None \<longleftrightarrow> sub \<notin> subcategory_name ` set cs"
  unfolding get_category_def by (induction cs) auto

text \<open>
  C9.  The membership test and the lookup agree on every index and every name:
  \<open>category_exists\<close> holds exactly when \<open>get_category\<close> returns a category, and the
  category returned is an entry of the index that carries the name asked for.
\<close>

theorem category_exists_agrees_with_get_category:
  "(category_exists cs sub \<longleftrightarrow> get_category cs sub \<noteq> None) \<and>
   (\<forall>c. get_category cs sub = Some c \<longrightarrow> subcategory_name c = sub \<and> c \<in> set cs)"
proof -
  have "category_exists cs sub \<longleftrightarrow> get_category cs sub \<noteq> None"
    by (simp add: category_exists_iff get_category_None_iff)
  moreover have "\<forall>c. get_category cs sub = Some c \<longrightarrow> subcategory_name c = sub \<and> c \<in> set cs"
    using get_category_Some by blast
  ultimately show ?thesis by blast
qed

theorem category_exists_agrees_with_get_category_witness:
  "category_exists
     [\<lparr>cat_id = Some 1, name = JStr ''Resistors'', subcategory_name = JStr ''Chip Resistor''\<rparr>,
      \<lparr>cat_id = Some 2, name = JStr ''Capacitors'', subcategory_name = JStr ''MLCC''\<rparr>]
     (JStr ''MLCC'')
   \<and> get_category
     [\<lparr>cat_id = Some 1, name = JStr ''Resistors'', subcategory_name = JStr ''Chip Resistor''\<rparr>,
      \<lparr>cat_id = Some 2, name = JStr ''Capacitors'', subcategory_name = JStr ''MLCC''\<rparr>]
     (JStr ''MLCC'')
     = Some \<lparr>cat_id = Some 2, name = JStr ''Capacitors'', subcategory_name = JStr ''MLCC''\<rparr>
   \<and> subcategory_name
       \<lparr>cat_id = Some 2, name = JStr ''Capacitors'', subcategory_name = JStr ''MLCC''\<rparr>
     = JStr ''MLCC''
   \<and> \<not> category_exists
     [\<lparr>cat_id = Some 1, name = JStr ''Resistors'', subcategory_name = JStr ''Chip Resistor''\<rparr>]
     (JStr ''MLCC'')"
proof -
  let ?r = "\<lparr>cat_id = Some 1, name = JStr ''Resistors'', subcategory_name = JStr ''Chip Resistor''\<rparr>"
  let ?c = "\<lparr>cat_id = Some 2, name = JStr ''Capacitors'', subcategory_name = JStr ''MLCC''\<rparr>"
  have g: "get_category [?r, ?c] (JStr ''MLCC'') = Some ?c"
    by (simp add: get_category_def)
  have n: "get_category [?r] (JStr ''MLCC'') = None"
    by (simp add: get_category_def)
  from category_exists_agrees_with_get_category [of "[?r, ?c]" "JStr ''MLCC''"] g
  have "category_exists [?r, ?c] (JStr ''MLCC'')" by simp
  moreover from category_exists_agrees_with_get_category [of "[?r]" "JStr ''MLCC''"] n
  have "\<not> category_exists [?r] (JStr ''MLCC'')" by simp
  ultimately show ?thesis using g by simp
qed

subsection \<open>Sequencing and loops\<close>

lemma and_then_Inr_iff: "and_then m f = Inr y \<longleftrightarrow> (\<exists>x. m = Inr x \<and> f x = Inr y)"
  by (cases m) auto

lemma dict_item_Inr_iff: "dict_item d k = Inr v \<longleftrightarrow> d k = Some v"
  by (simp add: dict_item_def split: option.splits)


lemma for_each_invariant:
  assumes run: "for_each f xs s = Inr s'"
    and init: "P s"
    and step: "\<And>x t t'. x \<in> set xs \<Longrightarrow> P t \<Longrightarrow> f x t = Inr t' \<Longrightarrow> P t'"
  shows "P s'"
  using run init step
proof (induction xs arbitrary: s)
  case Nil
  then show ?case by simp
next
  case (Cons x xs)
  from Cons.prems(1) obtain t where t: "f x s = Inr t" and rest: "for_each f xs t = Inr s'"
    by (auto simp: and_then_Inr_iff)
  have "P t" using Cons.prems(2,3) t by auto
  then show ?case using Cons.IH [OF rest] Cons.prems(3) by auto
qed

lemma for_each_skip:
  assumes "\<And>x t. x \<in> set xs \<Longrightarrow> \<not> keep x \<Longrightarrow> f x t = Inr t"
  shows "for_each f xs s = for_each f (filter keep xs) s"
  using assms
proof (induction xs arbitrary: s)
  case Nil
  show ?case by simp
next
  case (Cons x xs)
  have rest: "for_each f xs t = for_each f (filter keep xs) t" for t
    using Cons.IH Cons.prems by simp
  show ?case
  proof (cases "keep x")
    case True
    then show ?thesis by (simp add: rest cong: sum.case_cong)
        (cases "f x s"; simp add: rest)
  next
    case False
    then have "f x s = Inr s" using Cons.prems by simp
    then show ?thesis using False by (simp add: rest)
  qed
qed

subsection \<open>The loop over the parts of a page\<close>

lemma make_part_Inr:
  assumes "make_part e t cat c = Inr p"
  shows "category_id p = cat_id cat"
    and "c ''lcscPart'' = Some (lcsc p)"
    and "\<exists>v. c ''libraryType'' = Some v \<and> basic p = (v = JStr ''base'')"
    and "last_update p = t"
    and "\<exists>v. c ''price'' = Some v \<and> price p = get_part_price (pfloat e) v"
  using assms
  by (auto simp: make_part_def and_then_Inr_iff dict_item_Inr_iff)

lemma process_part_Inr:
  assumes "process_part e c (s, ps) = Inr (s', ps')"
  shows "(s' = s \<and> ps' = ps \<and>
           (c ''stock'' = Some (JInt 0) \<or>
            (\<exists>sub. c ''secondCategory'' = Some sub \<and> get_category (categories s) sub = None)))
         \<or> (\<exists>v sub cat p. c ''stock'' = Some v \<and> v \<noteq> JInt 0 \<and>
               c ''secondCategory'' = Some sub \<and>
               get_category (categories s) sub = Some cat \<and>
               make_part e (now e (ticks s)) cat c = Inr p \<and>
               ps' = ps @ [p] \<and>
               s' = s\<lparr>session := create_or_update_part e (session s) p,
                      ticks := Suc (ticks s)\<rparr>)"
  using assms
  by (auto simp: process_part_def and_then_Inr_iff dict_item_Inr_iff
      split: if_splits option.splits)

lemma process_part_zero_stock:
  "c ''stock'' = Some (JInt 0) \<Longrightarrow> process_part e c st = Inr st"
  by (cases st) (simp add: process_part_def dict_item_def)

lemma process_part_unknown_category:
  assumes "c ''stock'' = Some v" and "v \<noteq> JInt 0"
    and "c ''secondCategory'' = Some sub" and "get_category (categories s) sub = None"
  shows "process_part e c (s, ps) = Inr (s, ps)"
  using assms by (simp add: process_part_def dict_item_def)

text \<open>
  What the loop over the parts has done when it ends without an exception: the index is
  the one it started with, and every part it has appended was built from a record of the
  page whose stock is not 0 and whose \<open>secondCategory\<close> names a category of the index.
\<close>

lemma parts_loop_result:
  assumes "for_each (process_part e) comps (s, ps) = Inr (s', ps')"
  shows "categories s' = categories s \<and>
         (\<exists>new. ps' = ps @ new \<and>
            (\<forall>p \<in> set new. \<exists>c \<in> set comps. \<exists>cat \<in> set (categories s). \<exists>v t.
               c ''stock'' = Some v \<and> v \<noteq> JInt 0 \<and>
               c ''secondCategory'' = Some (subcategory_name cat) \<and>
               get_category (categories s) (subcategory_name cat) = Some cat \<and>
               make_part e t cat c = Inr p))"
proof -
  let ?B = "\<lambda>p. \<exists>c \<in> set comps. \<exists>cat \<in> set (categories s). \<exists>v t.
               c ''stock'' = Some v \<and> v \<noteq> JInt 0 \<and>
               c ''secondCategory'' = Some (subcategory_name cat) \<and>
               get_category (categories s) (subcategory_name cat) = Some cat \<and>
               make_part e t cat c = Inr p"
  let ?P = "\<lambda>st. categories (fst st) = categories s \<and>
              (\<exists>new. snd st = ps @ new \<and> (\<forall>p \<in> set new. ?B p))"
  have "?P (s', ps')"
  proof (rule for_each_invariant [OF assms, where P = ?P])
    show "?P (s, ps)" by simp
  next
    fix c t t'
    assume c: "c \<in> set comps" and t: "?P t" and run: "process_part e c t = Inr t'"
    obtain s1 ps1 where t_eq: "t = (s1, ps1)" by (cases t)
    obtain s2 ps2 where t'_eq: "t' = (s2, ps2)" by (cases t')
    from t t_eq obtain new where cats: "categories s1 = categories s"
      and new: "ps1 = ps @ new" "\<forall>p \<in> set new. ?B p"
      by auto
    from process_part_Inr [OF run [unfolded t_eq t'_eq]]
    show "?P t'"
    proof
      assume "s2 = s1 \<and> ps2 = ps1 \<and>
        (c ''stock'' = Some (JInt 0) \<or>
         (\<exists>sub. c ''secondCategory'' = Some sub \<and> get_category (categories s1) sub = None))"
      then show ?thesis using t t_eq t'_eq by simp
    next
      assume "\<exists>v sub cat p. c ''stock'' = Some v \<and> v \<noteq> JInt 0 \<and>
               c ''secondCategory'' = Some sub \<and>
               get_category (categories s1) sub = Some cat \<and>
               make_part e (now e (ticks s1)) cat c = Inr p \<and>
               ps2 = ps1 @ [p] \<and>
               s2 = s1\<lparr>session := create_or_update_part e (session s1) p,
                      ticks := Suc (ticks s1)\<rparr>"
      then obtain v sub cat p where
        v: "c ''stock'' = Some v" "v \<noteq> JInt 0" and sub: "c ''secondCategory'' = Some sub"
        and cat: "get_category (categories s1) sub = Some cat"
        and p: "make_part e (now e (ticks s1)) cat c = Inr p"
        and ps2: "ps2 = ps1 @ [p]"
        and s2: "s2 = s1\<lparr>session := create_or_update_part e (session s1) p,
                      ticks := Suc (ticks s1)\<rparr>"
        by blast
      from get_category_Some [OF cat] cats
      have cat_in: "subcategory_name cat = sub" "cat \<in> set (categories s)" by simp_all
      have "?B p"
        using c v sub cat p cat_in cats by auto
      then have "\<forall>q \<in> set (new @ [p]). ?B q"
        using new(2) by simp
      moreover have "ps2 = ps @ (new @ [p])" using ps2 new(1) by simp
      moreover have "categories s2 = categories s" using s2 cats by simp
      ultimately show ?thesis unfolding t'_eq by (metis fst_conv snd_conv)
    qed
  qed
  then show ?thesis by simp
qed

subsection \<open>The loop over the categories of a page\<close>

lemma process_category_categories:
  "categories (fst (process_category e c (s, ncs))) = categories s \<or>
   (\<exists>x. categories (fst (process_category e c (s, ncs))) = categories s @ [x] \<and>
        subcategory_name x = dict_get c ''secondCategory'' \<and>
        \<not> category_exists (categories s) (dict_get c ''secondCategory''))"
  by (auto simp: process_category_def Let_def split: prod.splits)

lemma process_category_distinct:
  assumes "distinct (map subcategory_name (categories s))"
  shows "distinct (map subcategory_name (categories (fst (process_category e c (s, ncs)))))"
  using process_category_categories [of e c s ncs] assms
  by (auto simp: category_exists_iff)

lemma categories_loop_distinct:
  assumes "distinct (map subcategory_name (categories s))"
  shows "distinct (map subcategory_name
           (categories (fst (fold (process_category e) comps (s, ncs)))))"
  using assms
proof (induction comps arbitrary: s ncs)
  case Nil
  then show ?case by simp
next
  case (Cons c comps)
  obtain s1 ncs1 where step: "process_category e c (s, ncs) = (s1, ncs1)"
    by (cases "process_category e c (s, ncs)")
  have "distinct (map subcategory_name (categories s1))"
    using process_category_distinct [OF Cons.prems, of e c ncs] step by simp
  from Cons.IH [OF this] show ?case by (simp add: step)
qed

lemma get_componentInfos_Inr: "get_componentInfos resp = Inr comps \<Longrightarrow> comps = componentInfos resp"
  by (auto simp: get_componentInfos_def split: page_data.splits)

lemma extract_and_process_components_Inr:
  assumes "extract_and_process_components e s resp = Inr (s', parts, cats)"
  shows "\<exists>s1. fold (process_category e) (componentInfos resp) (s, []) = (s1, cats) \<and>
              for_each (process_part e) (componentInfos resp) (s1, []) = Inr (s', parts)"
proof -
  from assms obtain comps where comps: "get_componentInfos resp = Inr comps"
    and run: "(case fold (process_category e) comps (s, []) of
                 (s1, new_categories) \<Rightarrow>
                   and_then (for_each (process_part e) comps (s1, []))
                     (\<lambda>(s2, new_parts). Inr (s2, new_parts, new_categories)))
              = Inr (s', parts, cats)"
    by (auto simp: extract_and_process_components_def and_then_Inr_iff)
  from run show ?thesis
    unfolding get_componentInfos_Inr [OF comps]
    by (auto simp: and_then_Inr_iff split: prod.splits)
qed

lemma extract_and_process_components_parts:
  assumes "extract_and_process_components e s resp = Inr (s', parts, cats)"
    and "p \<in> set parts"
  shows "\<exists>c \<in> set (componentInfos resp). \<exists>cat \<in> set (categories s'). \<exists>v t.
           c ''stock'' = Some v \<and> v \<noteq> JInt 0 \<and>
           c ''secondCategory'' = Some (subcategory_name cat) \<and>
           get_category (categories s') (subcategory_name cat) = Some cat \<and>
           make_part e t cat c = Inr p"
proof -
  from extract_and_process_components_Inr [OF assms(1)] obtain s1 where
    run: "for_each (process_part e) (componentInfos resp) (s1, []) = Inr (s', parts)"
    by blast
  from parts_loop_result [OF run] assms(2) show ?thesis by simp
qed

subsection \<open>The example page, evaluated\<close>

lemmas example_defs =
  extract_and_process_components_def get_componentInfos_def componentInfos_def lastKey_def
  process_category_def process_part_def
  make_part_def example_env_def example_scraper_def page_def resistor_def capacitor_def
  chip_resistor_def resistor_part_def
  category_exists_def get_category_def dict_get_def dict_item_def upsert_category_def
  upsert_part_def py_int_def int_decimal_def digit_val_def float_decimal_def
  get_part_price_def get_part_price_try_def list_item_def Let_def

lemma componentInfos_page: "componentInfos (page cs k) = cs"
  and lastKey_page: "lastKey (page cs k) = k"
  by (simp_all add: componentInfos_def lastKey_def page_def)

lemma example_page_result:
  "\<exists>s' cats. extract_and_process_components example_env example_scraper
      (page [resistor, capacitor] (JStr ''k1'')) = Inr (s', [resistor_part], cats)"
  by (simp add: example_defs)

lemma example_make_part:
  "make_part example_env 0 chip_resistor resistor = Inr resistor_part"
  by (simp add: example_defs)


subsection \<open>Records that produce no part\<close>

text \<open>
  C3.  A record whose \<open>stock\<close> equals 0 leaves the loop over the parts as it found it: no
  \<open>Part\<close> is constructed, nothing is appended to the new parts, and the session sees no
  part upsert.  So the loop over a page does what it does on the page without its
  zero-stock records, and every part that \<open>extract_and_process_components\<close> returns was
  built from a record whose stock is not 0.
\<close>

theorem zero_stock_records_are_skipped:
  "(c ''stock'' = Some (JInt 0) \<longrightarrow> process_part e c (s, new_parts) = Inr (s, new_parts))
   \<and> for_each (process_part e) comps st =
       for_each (process_part e) (filter (\<lambda>c. c ''stock'' \<noteq> Some (JInt 0)) comps) st
   \<and> (extract_and_process_components e s resp = Inr (s', parts, cats) \<longrightarrow>
        (\<forall>p \<in> set parts. \<exists>c \<in> set (componentInfos resp). \<exists>v cat t.
           c ''stock'' = Some v \<and> v \<noteq> JInt 0 \<and> make_part e t cat c = Inr p))"
proof -
  have "for_each (process_part e) comps st =
          for_each (process_part e) (filter (\<lambda>c. c ''stock'' \<noteq> Some (JInt 0)) comps) st"
    by (rule for_each_skip) (simp add: process_part_zero_stock)
  moreover have "\<forall>p \<in> set parts. \<exists>c \<in> set (componentInfos resp). \<exists>v cat t.
           c ''stock'' = Some v \<and> v \<noteq> JInt 0 \<and> make_part e t cat c = Inr p"
    if "extract_and_process_components e s resp = Inr (s', parts, cats)"
    using extract_and_process_components_parts [OF that] by blast
  ultimately show ?thesis by (simp add: process_part_zero_stock)
qed

theorem zero_stock_records_are_skipped_witness:
  "capacitor ''stock'' = Some (JInt 0)
   \<and> process_part example_env capacitor (example_scraper, []) = Inr (example_scraper, [])
   \<and> (\<exists>s' p cats.
        extract_and_process_components example_env example_scraper
          (page [resistor, capacitor] (JStr ''k1'')) = Inr (s', [p], cats)
        \<and> (\<exists>c \<in> set [resistor, capacitor]. \<exists>v cat t.
             c ''stock'' = Some v \<and> v \<noteq> JInt 0 \<and> make_part example_env t cat c = Inr p))"
proof -
  have zero: "capacitor ''stock'' = Some (JInt 0)"
    by (simp add: capacitor_def)
  from example_page_result obtain s' cats where
    run: "extract_and_process_components example_env example_scraper
            (page [resistor, capacitor] (JStr ''k1'')) = Inr (s', [resistor_part], cats)"
    by blast
  note inst = zero_stock_records_are_skipped
    [where c = capacitor and e = example_env and s = example_scraper and new_parts = "[]"
      and resp = "page [resistor, capacitor] (JStr ''k1'')" and s' = s'
      and parts = "[resistor_part]" and cats = cats]
  have "process_part example_env capacitor (example_scraper, []) = Inr (example_scraper, [])"
    using inst zero by blast
  moreover have "\<exists>c \<in> set [resistor, capacitor]. \<exists>v cat t.
      c ''stock'' = Some v \<and> v \<noteq> JInt 0 \<and> make_part example_env t cat c = Inr resistor_part"
    using inst run by (simp add: componentInfos_page)
  ultimately show ?thesis using zero run by blast
qed

subsection \<open>The category of a part\<close>

text \<open>
  C7.  Every part that \<open>extract_and_process_components\<close> returns was built from a record of
  the page and a category of the index such that the record's \<open>secondCategory\<close> is the
  category's \<open>subcategory_name\<close>, the category is the one \<open>get_category\<close> finds for that
  name, and the part's \<open>category_id\<close> is the category's id.  A record with stock whose
  \<open>secondCategory\<close> names no category of the index leaves the loop as it found it: no
  \<open>Part\<close> is constructed for it.
\<close>

theorem part_category_is_resolved:
  "(extract_and_process_components e s resp = Inr (s', parts, cats) \<longrightarrow>
      (\<forall>p \<in> set parts. \<exists>c \<in> set (componentInfos resp). \<exists>cat \<in> set (categories s').
         c ''secondCategory'' = Some (subcategory_name cat) \<and>
         get_category (categories s') (subcategory_name cat) = Some cat \<and>
         category_id p = cat_id cat \<and>
         (\<exists>t. make_part e t cat c = Inr p)))
   \<and> (c ''stock'' = Some v \<and> v \<noteq> JInt 0 \<and> c ''secondCategory'' = Some sub \<and>
        get_category (categories s) sub = None \<longrightarrow>
        process_part e c (s, new_parts) = Inr (s, new_parts))"
proof -
  have "\<forall>p \<in> set parts. \<exists>c \<in> set (componentInfos resp). \<exists>cat \<in> set (categories s').
         c ''secondCategory'' = Some (subcategory_name cat) \<and>
         get_category (categories s') (subcategory_name cat) = Some cat \<and>
         category_id p = cat_id cat \<and>
         (\<exists>t. make_part e t cat c = Inr p)"
    if run: "extract_and_process_components e s resp = Inr (s', parts, cats)"
  proof
    fix p assume "p \<in> set parts"
    from extract_and_process_components_parts [OF run this] obtain c cat v t where
      "c \<in> set (componentInfos resp)" "cat \<in> set (categories s')"
      "c ''secondCategory'' = Some (subcategory_name cat)"
      "get_category (categories s') (subcategory_name cat) = Some cat"
      "make_part e t cat c = Inr p"
      by blast
    moreover from this(5) have "category_id p = cat_id cat" by (rule make_part_Inr(1))
    ultimately show "\<exists>c \<in> set (componentInfos resp). \<exists>cat \<in> set (categories s').
         c ''secondCategory'' = Some (subcategory_name cat) \<and>
         get_category (categories s') (subcategory_name cat) = Some cat \<and>
         category_id p = cat_id cat \<and>
         (\<exists>t. make_part e t cat c = Inr p)"
      by blast
  qed
  then show ?thesis using process_part_unknown_category by blast
qed

theorem part_category_is_resolved_witness:
  "(\<exists>s' p cats.
      extract_and_process_components example_env example_scraper
        (page [resistor, capacitor] (JStr ''k1'')) = Inr (s', [p], cats)
      \<and> (\<exists>c \<in> set [resistor, capacitor]. \<exists>cat \<in> set (categories s').
           c ''secondCategory'' = Some (subcategory_name cat) \<and> category_id p = cat_id cat))
   \<and> resistor ''stock'' = Some (JInt 5000)
   \<and> resistor ''secondCategory'' = Some (JStr ''Chip Resistor'')
   \<and> get_category (categories example_scraper) (JStr ''Chip Resistor'') = None
   \<and> process_part example_env resistor (example_scraper, []) = Inr (example_scraper, [])"
proof -
  have stock: "resistor ''stock'' = Some (JInt 5000)"
    and sub: "resistor ''secondCategory'' = Some (JStr ''Chip Resistor'')"
    and unknown: "get_category (categories example_scraper) (JStr ''Chip Resistor'') = None"
    by (simp_all add: resistor_def example_scraper_def get_category_def)
  from example_page_result obtain s' cats where
    run: "extract_and_process_components example_env example_scraper
            (page [resistor, capacitor] (JStr ''k1'')) = Inr (s', [resistor_part], cats)"
    by blast
  note inst = part_category_is_resolved
    [where e = example_env and s = example_scraper
      and resp = "page [resistor, capacitor] (JStr ''k1'')" and s' = s'
      and parts = "[resistor_part]" and cats = cats and c = resistor and v = "JInt 5000"
      and sub = "JStr ''Chip Resistor''" and new_parts = "[]"]
  have "\<exists>c \<in> set [resistor, capacitor]. \<exists>cat \<in> set (categories s').
      c ''secondCategory'' = Some (subcategory_name cat) \<and>
      category_id resistor_part = cat_id cat"
    using inst run by (simp add: componentInfos_page) blast
  moreover have
    "process_part example_env resistor (example_scraper, []) = Inr (example_scraper, [])"
    using inst stock sub unknown by simp
  ultimately show ?thesis using stock sub unknown run by blast
qed

subsection \<open>The basic flag\<close>

text \<open>
  C10, as the code has it.  Whenever a \<open>Part\<close> is constructed from a record, the record
  has a value under \<open>libraryType\<close>, and the part's \<open>basic\<close> flag is true exactly when that
  value is the string \<open>base\<close>; so \<open>Basic\<close>, \<open>expand\<close> and null give false.  This holds for
  every part that \<open>extract_and_process_components\<close> returns.  A record without the key
  \<open>libraryType\<close> constructs no part.
\<close>

theorem basic_flag_of_constructed_part:
  "(make_part e t cat c = Inr p \<longrightarrow>
      (\<exists>v. c ''libraryType'' = Some v \<and> (basic p \<longleftrightarrow> v = JStr ''base'')))
   \<and> (c ''libraryType'' = None \<longrightarrow> (\<forall>p. make_part e t cat c \<noteq> Inr p))
   \<and> (extract_and_process_components e s resp = Inr (s', parts, cats) \<longrightarrow>
        (\<forall>p \<in> set parts. \<exists>c \<in> set (componentInfos resp). \<exists>v.
           c ''libraryType'' = Some v \<and> (basic p \<longleftrightarrow> v = JStr ''base'') \<and>
           (\<exists>cat t. make_part e t cat c = Inr p)))"
proof -
  have one: "\<exists>v. c ''libraryType'' = Some v \<and> (basic p \<longleftrightarrow> v = JStr ''base'')"
    if "make_part e t cat c = Inr p" for c cat t and p :: "'a part"
    using make_part_Inr(3) [OF that] by simp
  have "\<forall>p \<in> set parts. \<exists>c \<in> set (componentInfos resp). \<exists>v.
           c ''libraryType'' = Some v \<and> (basic p \<longleftrightarrow> v = JStr ''base'') \<and>
           (\<exists>cat t. make_part e t cat c = Inr p)"
    if run: "extract_and_process_components e s resp = Inr (s', parts, cats)"
  proof
    fix p assume "p \<in> set parts"
    from extract_and_process_components_parts [OF run this] obtain c cat t where
      c: "c \<in> set (componentInfos resp)" and p: "make_part e t cat c = Inr p"
      by blast
    from one [OF p] c p
    show "\<exists>c \<in> set (componentInfos resp). \<exists>v.
           c ''libraryType'' = Some v \<and> (basic p \<longleftrightarrow> v = JStr ''base'') \<and>
           (\<exists>cat t. make_part e t cat c = Inr p)"
      by blast
  qed
  moreover have "\<forall>p. make_part e t cat c \<noteq> Inr p" if "c ''libraryType'' = None"
    using one that by fastforce
  ultimately show ?thesis using one by blast
qed

theorem basic_flag_of_constructed_part_witness:
  "make_part example_env 0 chip_resistor resistor = Inr resistor_part
   \<and> resistor ''libraryType'' = Some (JStr ''base'') \<and> basic resistor_part
   \<and> resistor_untyped ''libraryType'' = None
   \<and> make_part example_env 0 chip_resistor resistor_untyped \<noteq> Inr resistor_part
   \<and> inductor ''libraryType'' = Some (JStr ''Basic'')
   \<and> (\<exists>p. make_part example_env 0 chip_resistor inductor = Inr p \<and> \<not> basic p)
   \<and> (\<exists>s' p cats.
        extract_and_process_components example_env example_scraper
          (page [resistor, capacitor] (JStr ''k1'')) = Inr (s', [p], cats)
        \<and> (\<exists>c \<in> set [resistor, capacitor]. \<exists>v.
             c ''libraryType'' = Some v \<and> (basic p \<longleftrightarrow> v = JStr ''base'')))"
proof -
  have lib: "resistor ''libraryType'' = Some (JStr ''base'')"
    and no_lib: "resistor_untyped ''libraryType'' = None"
    by (simp_all add: resistor_def resistor_untyped_def)
  from example_page_result obtain s' cats where
    run: "extract_and_process_components example_env example_scraper
            (page [resistor, capacitor] (JStr ''k1'')) = Inr (s', [resistor_part], cats)"
    by blast
  have basic_lib: "inductor ''libraryType'' = Some (JStr ''Basic'')"
    by (simp add: inductor_def)
  obtain q where q: "make_part example_env 0 chip_resistor inductor = Inr q"
    by (simp add: example_defs inductor_def)
  have "\<not> basic q"
    using basic_flag_of_constructed_part
      [where e = example_env and t = 0 and cat = chip_resistor and c = inductor and p = q]
      q basic_lib
    by simp
  with q have other: "\<exists>p. make_part example_env 0 chip_resistor inductor = Inr p \<and> \<not> basic p"
    by blast
  have "basic resistor_part"
    using basic_flag_of_constructed_part
      [where e = example_env and t = 0 and cat = chip_resistor and c = resistor
        and p = resistor_part] example_make_part lib
    by simp
  moreover have "make_part example_env 0 chip_resistor resistor_untyped \<noteq> Inr resistor_part"
    using basic_flag_of_constructed_part
      [where e = example_env and t = 0 and cat = chip_resistor and c = resistor_untyped]
      no_lib
    by blast
  moreover have "\<exists>c \<in> set [resistor, capacitor]. \<exists>v.
      c ''libraryType'' = Some v \<and> (basic resistor_part \<longleftrightarrow> v = JStr ''base'')"
    using basic_flag_of_constructed_part
      [where e = example_env and s = example_scraper
        and resp = "page [resistor, capacitor] (JStr ''k1'')" and s' = s'
        and parts = "[resistor_part]" and cats = cats] run
    by (simp add: componentInfos_page) blast
  ultimately show ?thesis using example_make_part lib no_lib basic_lib other run by blast
qed

text \<open>
  C10 as stated fails for a value that is missing because its key is: the resistor
  record without \<open>libraryType\<close> is in stock and its category resolves, and
  \<open>extract_and_process_components\<close> raises \<open>KeyError\<close> instead of returning a part whose
  flag is false.
\<close>

theorem missing_library_type_counterexample:
  "resistor_untyped ''libraryType'' = None
   \<and> resistor_untyped ''stock'' = Some (JInt 5000)
   \<and> extract_and_process_components example_env example_scraper
        (page [resistor_untyped] (JStr ''k1'')) = Inl (KeyError ''libraryType'')"
  by (simp add: example_defs resistor_untyped_def)

subsection \<open>Uniqueness of subcategory names in the index\<close>

text \<open>
  C4.  If no two categories of the index share a \<open>subcategory_name\<close>, the same holds of
  the index after the loop over the categories of a page, whatever the page, and so of
  the index that \<open>extract_and_process_components\<close> leaves.
\<close>

theorem category_index_stays_unique:
  assumes "distinct (map subcategory_name (categories s))"
  shows "distinct (map subcategory_name
           (categories (fst (fold (process_category e) comps (s, ncs)))))
       \<and> (extract_and_process_components e s resp = Inr (s', parts, cats) \<longrightarrow>
            distinct (map subcategory_name (categories s')))"
proof -
  have "distinct (map subcategory_name (categories s'))"
    if run: "extract_and_process_components e s resp = Inr (s', parts, cats)"
  proof -
    from extract_and_process_components_Inr [OF run] obtain s1 where
      s1: "fold (process_category e) (componentInfos resp) (s, []) = (s1, cats)"
      and loop: "for_each (process_part e) (componentInfos resp) (s1, []) = Inr (s', parts)"
      by blast
    have "distinct (map subcategory_name (categories s1))"
      using categories_loop_distinct [OF assms, of e "componentInfos resp" "[]"] s1 by simp
    then show ?thesis using parts_loop_result [OF loop] by simp
  qed
  then show ?thesis using categories_loop_distinct [OF assms] by blast
qed

theorem category_index_stays_unique_witness:
  "distinct (map subcategory_name (categories (example_scraper\<lparr>categories := [chip_resistor]\<rparr>)))
   \<and> distinct (map subcategory_name
        (categories (fst (fold (process_category example_env) [resistor, capacitor]
           (example_scraper\<lparr>categories := [chip_resistor]\<rparr>, [])))))
   \<and> length (categories (fst (fold (process_category example_env) [resistor, capacitor]
           (example_scraper\<lparr>categories := [chip_resistor]\<rparr>, [])))) = 2"
proof -
  have d: "distinct (map subcategory_name
             (categories (example_scraper\<lparr>categories := [chip_resistor]\<rparr>)))"
    by simp
  have "length (categories (fst (fold (process_category example_env) [resistor, capacitor]
           (example_scraper\<lparr>categories := [chip_resistor]\<rparr>, [])))) = 2"
    by (simp add: example_defs)
  then show ?thesis
    using category_index_stays_unique
      [OF d, where e = example_env and comps = "[resistor, capacitor]" and ncs = "[]"] d
    by blast
qed

subsection \<open>Partitioning\<close>

lemma ceil_div_bounds:
  assumes "ceil_div a b = Inr k"
  shows "0 < b" and "a \<le> k * b" and "0 < a \<Longrightarrow> 0 < k \<and> (k - 1) * b < a"
proof -
  show b: "0 < b" using assms by (auto simp: ceil_div_def split: if_splits)
  have k: "k = (if a mod b = 0 then a div b else a div b + 1)"
    using assms by (auto simp: ceil_div_def split: if_splits)
  have eq: "a = (a div b) * b + a mod b" by simp
  have lt: "a mod b < b" using b by simp
  show "a \<le> k * b"
  proof (cases "a mod b = 0")
    case True
    then show ?thesis using k eq by simp
  next
    case False
    then have "k * b = (a div b) * b + b" using k by (simp add: algebra_simps)
    then show ?thesis using eq lt by linarith
  qed
  show "0 < k \<and> (k - 1) * b < a" if "0 < a"
  proof (cases "a mod b = 0")
    case True
    then have kb: "k * b = a" using k eq by simp
    then have "0 < k" using that by (cases k) auto
    moreover have "(k - 1) * b + b = a" using kb \<open>0 < k\<close> by (cases k) auto
    ultimately show ?thesis using b by linarith
  next
    case False
    then have "k - 1 = a div b" "0 < k" using k by simp_all
    moreover have "(a div b) * b < a" using False eq by (metis add.commute less_add_same_cancel2 neq0_conv)
    ultimately show ?thesis by simp
  qed
qed

lemma ceil_div_is_ceiling:
  assumes "ceil_div a b = Inr k"
  shows "k = nat \<lceil>real a / real b\<rceil>"
proof -
  have b: "0 < b" using assms by (auto simp: ceil_div_def split: if_splits)
  have k: "k = (if a mod b = 0 then a div b else a div b + 1)"
    using assms by (auto simp: ceil_div_def split: if_splits)
  have "\<lceil>real a / real b\<rceil> = - ((- int a) div int b)"
    using ceiling_divide_eq_div [of "int a" "int b"] by simp
  moreover have "- ((- int a) div int b) = int k"
  proof -
    have m: "int a mod int b = int (a mod b)" and d: "int a div int b = int (a div b)"
      by (simp_all add: zmod_int zdiv_int)
    show ?thesis
    proof (cases "a mod b = 0")
      case True
      then show ?thesis using b k by (simp add: zdiv_zminus1_eq_if m d)
    next
      case False
      then show ?thesis using b k by (simp add: zdiv_zminus1_eq_if m d)
    qed
  qed
  ultimately show ?thesis by simp
qed

lemma concat_slices:
  "concat (map (\<lambda>i. take k (drop (i * k) xs)) [0..<c]) = take (c * k) xs"
proof (induction c)
  case 0
  show ?case by simp
next
  case (Suc c)
  have "take (c * k + k) xs = take (c * k) xs @ take k (drop (c * k) xs)"
    by (simp add: take_add)
  then show ?case using Suc by (simp add: add.commute)
qed

text \<open>
  C6, as the code has it.  For a non-empty list of parts the partitioning raises nothing.
  The number of chunks is the ceiling of a hundredth of the number of parts, the chunk
  size is the ceiling of the number of parts divided by the number of chunks, and chunk
  \<open>i\<close> is the slice of the parts that starts at offset \<open>i\<close> times the chunk size and has
  at most the chunk size as its length.  The chunks, one after the other, are the list of
  parts: every part is in exactly one chunk.  No chunk is empty.  For 250 parts there are
  3 chunks and the chunk size is 84.  The computation has no clamp.
\<close>

theorem partition_parts_covers:
  assumes "parts \<noteq> []"
  shows "\<exists>chunks size.
           partition_parts parts =
             Inr (chunks, size, map (\<lambda>i. take size (drop (i * size) parts)) [0..<chunks])
           \<and> chunks = nat \<lceil>real (length parts) / 100\<rceil>
           \<and> size = nat \<lceil>real (length parts) / real chunks\<rceil>
           \<and> concat (map (\<lambda>i. take size (drop (i * size) parts)) [0..<chunks]) = parts
           \<and> (\<forall>i < chunks. take size (drop (i * size) parts) \<noteq> [])
           \<and> (length parts = 250 \<longrightarrow> chunks = 3 \<and> size = 84)"
proof -
  let ?n = "length parts"
  have n: "0 < ?n" using assms by simp
  obtain c where c: "ceil_div ?n 100 = Inr c"
    by (simp add: ceil_div_def)
  from ceil_div_bounds(2,3) [OF c] n
  have c_up: "?n \<le> c * 100" and c_pos: "0 < c" and c_low: "(c - 1) * 100 < ?n"
    by simp_all
  obtain k where k: "ceil_div ?n c = Inr k"
    using c_pos by (simp add: ceil_div_def)
  from ceil_div_bounds(2,3) [OF k] n
  have k_up: "?n \<le> k * c" and k_pos: "0 < k" and k_low: "(k - 1) * c < ?n"
    by simp_all
  have "(k - 1) * c < 100 * c" using k_low c_up by linarith
  then have "k - 1 < 100" by (rule mult_less_cancel2 [THEN iffD1, THEN conjunct2])
  then have k_le: "k \<le> 100" by simp
  have run: "partition_parts parts =
      Inr (c, k, map (\<lambda>i. take k (drop (i * k) parts)) [0..<c])"
    by (simp add: partition_parts_def c k query_parts_def)
  have cover: "concat (map (\<lambda>i. take k (drop (i * k) parts)) [0..<c]) = parts"
    using k_up by (simp add: concat_slices mult.commute)
  have nonempty: "take k (drop (i * k) parts) \<noteq> []" if "i < c" for i
  proof -
    have "i \<le> c - 1" using that by simp
    then have "i * k \<le> (c - 1) * 100"
      using k_le by (rule mult_le_mono)
    then have "i * k < ?n" using c_low by simp
    then show ?thesis using k_pos by simp
  qed
  have example: "c = 3 \<and> k = 84" if "?n = 250"
    using c k that by (auto simp: ceil_div_def)
  show ?thesis
    using run ceil_div_is_ceiling [OF c] ceil_div_is_ceiling [OF k] cover nonempty example
    by (intro exI [of _ c] exI [of _ k]) simp
qed

theorem partition_parts_covers_witness:
  "replicate 250 (0::nat) \<noteq> []
   \<and> (\<exists>batches. partition_parts (replicate 250 (0::nat)) = Inr (3, 84, batches)
        \<and> concat batches = replicate 250 0
        \<and> batches = map (\<lambda>i. take 84 (drop (i * 84) (replicate 250 0))) [0..<3])"
proof -
  have ne: "replicate 250 (0::nat) \<noteq> []" by simp
  from partition_parts_covers [OF ne] show ?thesis using ne by auto
qed

text \<open>
  C6 as stated fails for an empty repository: the number of chunks is 0 and the chunk
  size is a division by it.
\<close>

theorem partition_parts_empty_counterexample:
  "partition_parts ([] :: nat list) = Inl ZeroDivisionError"
  by (simp add: partition_parts_def ceil_div_def)

subsection \<open>The token check\<close>

lemma check_token_Inr:
  assumes "check_token e s = Inr s'"
  shows "\<exists>expires. token_expires s = Some expires \<and>
           (if expires < now e (ticks s)
            then obtain_token e (s\<lparr>ticks := Suc (ticks s)\<rparr>) = Inr s' \<and>
                 token_expires s' = Some (now e (Suc (ticks s)) + 1800 * 1000000)
            else s' = s\<lparr>ticks := Suc (ticks s)\<rparr>)"
  using assms
  by (auto simp: check_token_def obtain_token_def and_then_Inr_iff timedelta_seconds_def Let_def
      split: option.splits if_splits)

text \<open>
  C5, as the code has it.  Every iteration of the loop of \<open>get_parts\<close> runs the token
  check before it submits its request, and the request is submitted with the scraper
  the check leaves; when the check raises, no request is submitted.  The check compares
  the expiry tracked on the scraper with a reading of the clock: when the expiry is
  strictly before the reading, a token is obtained, and its expiry is the reading of the
  clock at that moment plus 1800 seconds; otherwise the token is kept as it is, also
  when it expires at the very instant of the reading or right after it.  So, with a
  clock that does not run backwards, the request of an iteration is submitted with a
  token whose tracked expiry is not before the reading taken by the check of that
  iteration.
\<close>

theorem token_is_checked_before_each_fetch:
  "(check_token e s = Inr s' \<longrightarrow>
      (\<exists>expires. token_expires s = Some expires \<and>
         (if expires < now e (ticks s)
          then obtain_token e (s\<lparr>ticks := Suc (ticks s)\<rparr>) = Inr s' \<and>
               token_expires s' = Some (now e (Suc (ticks s)) + 1800 * 1000000)
          else s' = s\<lparr>ticks := Suc (ticks s)\<rparr>)) \<and>
      (now e (ticks s) \<le> now e (Suc (ticks s)) \<longrightarrow>
         (\<exists>x. token_expires s' = Some x \<and> now e (ticks s) \<le> x)))
   \<and> (get_parts_iteration e g = Inr g' \<longrightarrow>
        (\<exists>s1. check_token e (scr g) = Inr s1 \<and> scr (submit e g s1) = s1 \<and>
           for_each (apply_response e)
             (as_completed e (length (futures g)) (futures (submit e g s1)))
             (submit e g s1) = Inr g'))
   \<and> (check_token e (scr g) = Inl err \<longrightarrow> get_parts_iteration e g = Inl err)"
proof -
  have "\<exists>x. token_expires s' = Some x \<and> now e (ticks s) \<le> x"
    if run: "check_token e s = Inr s'" and mono: "now e (ticks s) \<le> now e (Suc (ticks s))"
  proof -
    from check_token_Inr [OF run] obtain expires where
      ex: "token_expires s = Some expires"
      and cases: "if expires < now e (ticks s)
            then obtain_token e (s\<lparr>ticks := Suc (ticks s)\<rparr>) = Inr s' \<and>
                 token_expires s' = Some (now e (Suc (ticks s)) + 1800 * 1000000)
            else s' = s\<lparr>ticks := Suc (ticks s)\<rparr>"
      by blast
    show ?thesis
    proof (cases "expires < now e (ticks s)")
      case True
      with cases mono show ?thesis by simp
    next
      case False
      with cases ex show ?thesis by simp
    qed
  qed
  moreover have "\<exists>s1. check_token e (scr g) = Inr s1 \<and> scr (submit e g s1) = s1 \<and>
           for_each (apply_response e)
             (as_completed e (length (futures g)) (futures (submit e g s1)))
             (submit e g s1) = Inr g'"
    if "get_parts_iteration e g = Inr g'"
    using that by (auto simp: get_parts_iteration_def and_then_Inr_iff submit_def)
  moreover have "get_parts_iteration e g = Inl err" if "check_token e (scr g) = Inl err"
    using that by (simp add: get_parts_iteration_def)
  ultimately show ?thesis using check_token_Inr by blast
qed

theorem token_is_checked_before_each_fetch_witness:
  "check_token example_env (example_scraper\<lparr>ticks := 1801\<rparr>)
     = Inr (example_scraper\<lparr>token_expires := Some 3602000000, ticks := 1803\<rparr>)
   \<and> token_expires (example_scraper\<lparr>ticks := 1801\<rparr>) = Some 1800000000
   \<and> now example_env 1801 = 1801000000
   \<and> now example_env 1801 \<le> now example_env (Suc 1801)
   \<and> obtain_token example_env (example_scraper\<lparr>ticks := 1802\<rparr>)
       = Inr (example_scraper\<lparr>token_expires := Some 3602000000, ticks := 1803\<rparr>)"
proof -
  let ?s = "example_scraper\<lparr>ticks := 1801\<rparr>"
  let ?s' = "example_scraper\<lparr>token_expires := Some 3602000000, ticks := 1803\<rparr>"
  have run: "check_token example_env ?s = Inr ?s'"
    by (simp add: check_token_def obtain_token_def example_env_def example_scraper_def
        falsy_str_def dict_item_def timedelta_seconds_def)
  have facts: "token_expires ?s = Some 1800000000" "now example_env 1801 = 1801000000"
    "now example_env 1801 \<le> now example_env (Suc 1801)" "ticks ?s = 1801"
    by (simp_all add: example_env_def example_scraper_def)
  from token_is_checked_before_each_fetch
    [where e = example_env and s = ?s and s' = ?s'] run facts
  have "obtain_token example_env (?s\<lparr>ticks := Suc 1801\<rparr>) = Inr ?s'"
    by (auto split: if_splits)
  then show ?thesis using run facts by simp
qed

text \<open>
  C5 as stated fails: a token is not reissued when it is about to expire.  With one
  second of its thirty minutes left, and with none left, the token passes the check,
  and at the next reading of the clock, one second later, the scraper still holds it.
\<close>

theorem expiring_token_is_kept_counterexample:
  "token_expires (example_scraper\<lparr>ticks := 1799\<rparr>) = Some (now example_env 1799 + 1000000)
   \<and> check_token example_env (example_scraper\<lparr>ticks := 1799\<rparr>)
       = Inr (example_scraper\<lparr>ticks := 1800\<rparr>)
   \<and> token_expires (example_scraper\<lparr>ticks := 1800\<rparr>) = Some (now example_env 1800)
   \<and> check_token example_env (example_scraper\<lparr>ticks := 1800\<rparr>)
       = Inr (example_scraper\<lparr>ticks := 1801\<rparr>)
   \<and> token_expires (example_scraper\<lparr>ticks := 1801\<rparr>) = Some (now example_env 1801 - 1000000)"
  by (simp add: check_token_def example_env_def example_scraper_def)

subsection \<open>The pagination loop\<close>







lemmas iteration_defs =
  example_defs get_parts_iteration_def check_token_def submit_def request_data_def
  apply_response_def example_fetch_def failed_page_def


lemma latest_first_two_iterations:
  "\<exists>g1 g2.
      get_parts_iteration latest_first_env example_fetch = Inr g1
      \<and> parts_fetched g1 \<and> last_key g1 = JStr ''k1''
      \<and> get_parts_iteration latest_first_env g1 = Inr g2
      \<and> futures g2 = [Inr (page [resistor, capacitor] (JStr ''k1'')), Inr failed_page]
      \<and> parts_fetched g2 \<and> last_key g2 = JStr ''k1''"
  by (simp add: iteration_defs latest_first_env_def failing_vendor_def)

text \<open>
  C1.  The loop of \<open>get_parts\<close> is meant to stop at a page with a code other than 200,
  without component records or without an accepted part, and it does not always do so.
  The futures of all requests stay in \<open>future_to_url\<close>, every iteration applies again
  each page received so far, in the order \<open>as_completed\<close> yields the futures, and the flag
  and the cursor are those of the page applied last.  Here the first request is answered
  with a page holding a part in stock and the second with code 500, and the second future
  has completed when \<open>as_completed\<close> is called and is yielded before the first.  After
  the second iteration the flag \<open>parts_fetched\<close> is true and the cursor is that of the
  first page: the loop has not stopped at the page with code 500, and two iterations do
  not end it.  And a reply with code 200 whose \<open>data\<close> is null, which carries no
  component records, does not set the flag to false: it raises \<open>AttributeError\<close>.
\<close>

theorem stale_page_keeps_the_loop_running:
  "(\<exists>g1 g2.
      get_parts_iteration latest_first_env example_fetch = Inr g1
      \<and> parts_fetched g1 \<and> last_key g1 = JStr ''k1''
      \<and> get_parts_iteration latest_first_env g1 = Inr g2
      \<and> futures g2 = [Inr (page [resistor, capacitor] (JStr ''k1'')), Inr failed_page]
      \<and> as_completed latest_first_env 1 (futures g2)
          = [Inr failed_page, Inr (page [resistor, capacitor] (JStr ''k1''))]
      \<and> code failed_page = JInt 500
      \<and> parts_fetched g2
      \<and> last_key g2 = JStr ''k1'')
   \<and> get_parts 2 latest_first_env example_scraper = None
   \<and> apply_response example_env (Inr null_page) example_fetch = Inl AttributeError"
proof -
  from latest_first_two_iterations obtain g1 g2 where
    it: "get_parts_iteration latest_first_env example_fetch = Inr g1"
      "parts_fetched g1" "last_key g1 = JStr ''k1''"
      "get_parts_iteration latest_first_env g1 = Inr g2"
      "futures g2 = [Inr (page [resistor, capacitor] (JStr ''k1'')), Inr failed_page]"
      "parts_fetched g2" "last_key g2 = JStr ''k1''"
    by auto
  have yield: "as_completed latest_first_env 1 (futures g2)
      = [Inr failed_page, Inr (page [resistor, capacitor] (JStr ''k1''))]"
    by (simp add: it(5) latest_first_env_def example_env_def)
  have "get_parts 2 latest_first_env example_scraper
      = get_parts_loop (Suc (Suc 0)) latest_first_env example_fetch"
    by (simp add: get_parts_def example_fetch_def numeral_2_eq_2)
  also have "\<dots> = None"
    using it by (simp add: example_fetch_def)
  finally have loop: "get_parts 2 latest_first_env example_scraper = None" .
  have null: "apply_response example_env (Inr null_page) example_fetch = Inl AttributeError"
    by (simp add: apply_response_def null_page_def get_componentInfos_def)
  have "code failed_page = JInt 500" by (simp add: failed_page_def)
  with it yield loop null show ?thesis by blast
qed

subsection \<open>The order in which pages are applied\<close>






end
